theory Spec2Isabelle
  imports Complex_Main "HOL-Library.Word" "HOL-Library.Sublist"
begin

section \<open>Data model\<close>

text \<open>
  The model follows \<^verbatim>\<open>index.ts\<close> of the SDK. A buffer (\<^verbatim>\<open>ArrayBuffer\<close>,
  \<^verbatim>\<open>Uint8Array\<close>, Node \<^verbatim>\<open>Buffer\<close>) is the list of its bytes. A thrown
  \<^verbatim>\<open>new Error(msg)\<close> is the value \<open>Error msg\<close>.
\<close>

type_synonym bytes = "8 word list"

datatype error = Error string

text \<open>
  A \<^verbatim>\<open>Part\<close> as \<^verbatim>\<open>messageToParts\<close> builds it: \<^verbatim>\<open>{text}\<close>,
  \<^verbatim>\<open>{inlineData: {mimeType, data}}\<close> or \<^verbatim>\<open>{fileData: {mimeType, fileUri}}\<close>.
\<close>

datatype part =
    Text string
  | InlineData string string
  | FileData string string

text \<open>
  What the outside world sees of a call: the upload request (the multipart POST, with the
  MIME type declared in its metadata segment and the raw bytes), the status query (the GET of
  the file name) and the timed delay between two queries, in milliseconds. The random
  multipart boundary, the API version and the API key are not modelled.
\<close>

datatype event =
    UploadRequest string bytes
  | StatusQuery string
  | Sleep rat

text \<open>
  An \<^verbatim>\<open>async\<close> function takes the events so far and gives its outcome with the events
  extended. The polling loop of \<^verbatim>\<open>uploadFile\<close> has no bound, so it is run with a budget
  of iterations: \<open>StillPolling\<close> is the loop still going when the budget is used up.
\<close>

datatype 'a outcome = Returned 'a | Threw error | StillPolling

type_synonym 'a io = "event list \<Rightarrow> 'a outcome \<times> event list"

text \<open>
  The reply to the upload request: the \<^verbatim>\<open>fetch\<close> or \<^verbatim>\<open>res.json()\<close> rejects with a
  message, or the JSON body arrives; its \<^verbatim>\<open>file\<close> field is absent or holds the name and
  the URI of the asset.
\<close>

record file_info =
  name :: string
  uri :: string

datatype upload_reply =
    UploadRejected string
  | UploadJson "file_info option"

text \<open>
  The reply to a status query: something in the \<^verbatim>\<open>try\<close> block throws with a message
  (the \<^verbatim>\<open>fetch\<close> rejects, the body is not JSON), or the JSON body arrives with its
  \<^verbatim>\<open>error\<close> field (the message of a truthy \<^verbatim>\<open>data.error\<close>, if any) and its
  \<^verbatim>\<open>state\<close>.
\<close>

datatype status_reply =
    StatusRejected string
  | StatusJson "string option" string

text \<open>
  Everything the module calls that is not its own code: \<^verbatim>\<open>fileTypeFromBuffer\<close> of the
  package file-type (\<open>None\<close> is \<^verbatim>\<open>undefined\<close>), \<^verbatim>\<open>mime.getType\<close> of mime-lite
  (\<open>None\<close> is \<^verbatim>\<open>null\<close>), the base64 codec of Node's \<^verbatim>\<open>Buffer\<close>, and the remote
  service, which answers each request knowing all events up to and including that request.
\<close>

record env =
  fileTypeFromBuffer :: "bytes \<Rightarrow> string option"
  mime_getType :: "string \<Rightarrow> string option"
  toBase64 :: "bytes \<Rightarrow> string"
  fromBase64 :: "string \<Rightarrow> bytes"
  upload_reply :: "event list \<Rightarrow> upload_reply"
  status_reply :: "event list \<Rightarrow> status_reply"

section \<open>MIME classification\<close>

definition supportedFileFormats :: "string list" where
  "supportedFileFormats =
    [''image/png'', ''image/jpeg'', ''image/webp'', ''image/heic'', ''image/heif'',
     ''audio/wav'', ''audio/mp3'', ''audio/mpeg'', ''audio/aiff'', ''audio/aac'',
     ''audio/ogg'', ''audio/flac'',
     ''video/mp4'', ''video/mpeg'', ''video/mov'', ''video/avi'', ''video/x-flv'',
     ''video/mpg'', ''video/webm'', ''video/wmv'', ''video/3gpp'',
     ''text/plain'', ''text/html'', ''text/css'', ''text/javascript'',
     ''application/x-javascript'', ''text/x-typescript'', ''application/x-typescript'',
     ''text/csv'', ''text/markdown'', ''text/x-python'', ''application/x-python-code'',
     ''application/json'', ''text/xml'', ''application/rtf'', ''text/rtf'',
     ''application/pdf'']"

definition formatMap :: "(string \<times> string) list" where
  "formatMap = [(''audio/mpeg'', ''audio/mp3''), (''video/quicktime'', ''video/mov'')]"

text \<open>
  \<^verbatim>\<open>formatMap[format] || format\<close>, for a string \<open>format\<close>. (For a key that the
  object literal only inherits, such as \<^verbatim>\<open>constructor\<close>, the source gets a value that is
  not a string; it is not in the list of formats, and neither is the key that \<open>mapped\<close>
  gives back, so the classification is the same.)
\<close>

definition mapped :: "string \<Rightarrow> string" where
  "mapped format = (case map_of formatMap format of Some canonical \<Rightarrow> canonical | None \<Rightarrow> format)"

text \<open>
  The source keeps a pair \<^verbatim>\<open>format\<close>, \<^verbatim>\<open>valid\<close>, where \<^verbatim>\<open>valid\<close> is
  \<^verbatim>\<open>supportedFileFormats.includes(format)\<close>; \<^verbatim>\<open>format\<close> may be \<^verbatim>\<open>undefined\<close> or
  \<^verbatim>\<open>null\<close>, which the list does not include. Here the pair is one option value:
  \<open>Some format\<close> when \<^verbatim>\<open>valid\<close> holds, \<open>None\<close> otherwise.
\<close>

definition accepted :: "string option \<Rightarrow> string option" where
  "accepted format =
     (case format of
        None \<Rightarrow> None
      | Some f \<Rightarrow> if f \<in> set supportedFileFormats then Some f else None)"

definition unsupported_format_message :: string where
  "unsupported_format_message =
     ''Please provide a valid file format that is accepted by Gemini. Learn more about valid formats here: https://ai.google.dev/gemini-api/docs/prompting_with_media?lang=node#supported_file_formats''"

text \<open>
  \<^verbatim>\<open>getFileType(buffer, filePath, {strict})\<close>. The path hint is used when the sniffed
  type is not valid and the hint is truthy, that is, present and not the empty string.
\<close>

definition getFileType :: "env \<Rightarrow> bytes \<Rightarrow> string option \<Rightarrow> bool \<Rightarrow> string io" where
  "getFileType env buffer filePath strict evs =
     (case accepted (map_option mapped (fileTypeFromBuffer env buffer)) of
        Some format \<Rightarrow> (Returned format, evs)
      | None \<Rightarrow>
          (case (case filePath of
                   None \<Rightarrow> None
                 | Some p \<Rightarrow> if p \<noteq> [] then accepted (map_option mapped (mime_getType env p))
                             else None) of
             Some format \<Rightarrow> (Returned format, evs)
           | None \<Rightarrow>
               if strict then (Threw (Error unsupported_format_message), evs)
               else (Returned ''text/plain'', evs)))"

section \<open>Upload and status polling\<close>

definition MAX_BACKOFF :: rat where
  "MAX_BACKOFF = 5000"

text \<open>
  The \<^verbatim>\<open>catch\<close> clause of the polling loop wraps the message of whatever was thrown
  in the \<^verbatim>\<open>try\<close> block.
\<close>

definition caught :: "string \<Rightarrow> error" where
  "caught msg = Error (''An error occurred while uploading to Google's File API: '' @ msg)"

definition api_error :: "string \<Rightarrow> string" where
  "api_error msg = ''Google's File API responded with an error: '' @ msg"

text \<open>
  With no \<^verbatim>\<open>file\<close> field in the upload reply, building the status URL reads
  \<^verbatim>\<open>fileSendData.name\<close> of \<^verbatim>\<open>undefined\<close>: a TypeError inside the \<^verbatim>\<open>try\<close> block,
  with the message of V8.
\<close>

definition no_file_message :: string where
  "no_file_message = ''Cannot read properties of undefined (reading 'name')''"

text \<open>
  The loop \<^verbatim>\<open>while (true)\<close> of \<^verbatim>\<open>uploadFile\<close>, with a budget of iterations. The wait
  time is a JavaScript number; every value it takes is \<open>250 * 3^k / 2^k\<close> with
  \<open>k \<le> 8\<close>, or 5000 or 7500, all of them binary fractions of a few bits, so the
  double-precision arithmetic of the source is exact and the rationals give the same values.
  At \<^verbatim>\<open>break\<close> the loop hands over the file record it polled.
\<close>

fun poll :: "nat \<Rightarrow> env \<Rightarrow> file_info option \<Rightarrow> rat \<Rightarrow> file_info io" where
  "poll 0 env fileSendData waitTime evs = (StillPolling, evs)"
| "poll (Suc budget) env fileSendData waitTime evs =
     (case fileSendData of
        None \<Rightarrow> (Threw (caught no_file_message), evs)
      | Some file \<Rightarrow>
          (let evs1 = evs @ [StatusQuery (name file)] in
           case status_reply env evs1 of
             StatusRejected msg \<Rightarrow> (Threw (caught msg), evs1)
           | StatusJson (Some msg) state \<Rightarrow> (Threw (caught (api_error msg)), evs1)
           | StatusJson None state \<Rightarrow>
               if state = ''ACTIVE'' then (Returned file, evs1)
               else poll budget env fileSendData (min (waitTime * (3 / 2)) MAX_BACKOFF)
                      (evs1 @ [Sleep waitTime])))"

text \<open>
  \<^verbatim>\<open>uploadFile({file, mimeType})\<close>: one upload request, then the polling loop from a
  wait of 250 ms, then the URI of the file record. A rejected upload request is thrown as it
  is (it is outside the \<^verbatim>\<open>try\<close> block).
\<close>

definition uploadFile :: "nat \<Rightarrow> env \<Rightarrow> bytes \<Rightarrow> string \<Rightarrow> string io" where
  "uploadFile budget env file mimeType evs =
     (let evs1 = evs @ [UploadRequest mimeType file] in
      case upload_reply env evs1 of
        UploadRejected msg \<Rightarrow> (Threw (Error msg), evs1)
      | UploadJson fileSendData \<Rightarrow>
          (case poll budget env fileSendData 250 evs1 of
             (Returned file, evs2) \<Rightarrow> (Returned (uri file), evs2)
           | (Threw e, evs2) \<Rightarrow> (Threw e, evs2)
           | (StillPolling, evs2) \<Rightarrow> (StillPolling, evs2)))"

section \<open>Part assembly\<close>

text \<open>
  An element of the list given to \<^verbatim>\<open>messageToParts\<close>: a string, an \<^verbatim>\<open>ArrayBuffer\<close>,
  a \<^verbatim>\<open>Uint8Array\<close>, an object \<^verbatim>\<open>{buffer, filePath}\<close> of the type \<^verbatim>\<open>FileUpload\<close>
  (a buffer and a string), or, since nothing checks the list at run time, any other value
  (\<open>Other\<close>: a number, \<^verbatim>\<open>null\<close>, an object without a truthy \<^verbatim>\<open>buffer\<close> and
  \<^verbatim>\<open>filePath\<close>).
\<close>

datatype message =
    Str string
  | ArrayBuffer bytes
  | Uint8Array bytes
  | FileUpload bytes string
  | Other

text \<open>
  \<^verbatim>\<open>data && data.buffer && data.filePath\<close> as a condition. A buffer object is truthy; a
  string is truthy when it is not empty. A string and an \<^verbatim>\<open>ArrayBuffer\<close> have no
  \<^verbatim>\<open>buffer\<close> property, a \<^verbatim>\<open>Uint8Array\<close> has no \<^verbatim>\<open>filePath\<close>.
\<close>

fun isFileUpload :: "message \<Rightarrow> bool" where
  "isFileUpload (FileUpload buffer filePath) = (filePath \<noteq> [])"
| "isFileUpload _ = False"

text \<open>\<^verbatim>\<open>mimeType.startsWith("video")\<close>.\<close>

definition startsWith_video :: "string \<Rightarrow> bool" where
  "startsWith_video mimeType = (take 5 mimeType = ''video'')"

text \<open>
  The branch of the loop body for a binary element, given its buffer and its path hint. The
  loop state is the pair of \<^verbatim>\<open>parts\<close> and \<^verbatim>\<open>totalBytes\<close>.
\<close>

definition binary_part ::
  "nat \<Rightarrow> env \<Rightarrow> bytes \<Rightarrow> string option \<Rightarrow> part list \<times> nat \<Rightarrow> (part list \<times> nat) io" where
  "binary_part budget env buffer filePath st evs =
     (let (parts, totalBytes) = st;
          totalBytes = totalBytes + length buffer in
      case getFileType env buffer filePath False evs of
        (Returned mimeType, evs1) \<Rightarrow>
          if \<not> startsWith_video mimeType then
            (Returned (parts @ [InlineData mimeType (toBase64 env buffer)], totalBytes), evs1)
          else
            (case uploadFile budget env buffer mimeType evs1 of
               (Returned fileURI, evs2) \<Rightarrow>
                 (Returned (parts @ [FileData mimeType fileURI], totalBytes), evs2)
             | (Threw e, evs2) \<Rightarrow> (Threw e, evs2)
             | (StillPolling, evs2) \<Rightarrow> (StillPolling, evs2))
      | (Threw e, evs1) \<Rightarrow> (Threw e, evs1)
      | (StillPolling, evs1) \<Rightarrow> (StillPolling, evs1))"

text \<open>The body of \<^verbatim>\<open>for (const msg of messages)\<close>, by the kind of the element.\<close>

fun message_step :: "nat \<Rightarrow> env \<Rightarrow> message \<Rightarrow> part list \<times> nat \<Rightarrow> (part list \<times> nat) io" where
  "message_step budget env (Str msg) st evs = (Returned (fst st @ [Text msg], snd st), evs)"
| "message_step budget env (ArrayBuffer buffer) st evs = binary_part budget env buffer None st evs"
| "message_step budget env (Uint8Array buffer) st evs = binary_part budget env buffer None st evs"
| "message_step budget env (FileUpload buffer filePath) st evs =
     (if isFileUpload (FileUpload buffer filePath)
      then binary_part budget env buffer (Some filePath) st evs
      else (Returned st, evs))"
| "message_step budget env Other st evs = (Returned st, evs)"

fun message_loop ::
  "nat \<Rightarrow> env \<Rightarrow> message list \<Rightarrow> part list \<times> nat \<Rightarrow> (part list \<times> nat) io" where
  "message_loop budget env [] st evs = (Returned st, evs)"
| "message_loop budget env (msg # messages) st evs =
     (case message_step budget env msg st evs of
        (Returned st', evs') \<Rightarrow> message_loop budget env messages st' evs'
      | (Threw e, evs') \<Rightarrow> (Threw e, evs')
      | (StillPolling, evs') \<Rightarrow> (StillPolling, evs'))"

text \<open>
  The second loop, \<^verbatim>\<open>for (const idx in parts)\<close>, over the indices of the array; an
  inline part is uploaded from its decoded data and overwritten at its index.
\<close>

fun promote :: "nat \<Rightarrow> env \<Rightarrow> nat list \<Rightarrow> part list \<Rightarrow> part list io" where
  "promote budget env [] parts evs = (Returned parts, evs)"
| "promote budget env (idx # rest) parts evs =
     (case parts ! idx of
        InlineData mimeType data \<Rightarrow>
          (case uploadFile budget env (fromBase64 env data) mimeType evs of
             (Returned fileURI, evs') \<Rightarrow>
               promote budget env rest (parts[idx := FileData mimeType fileURI]) evs'
           | (Threw e, evs') \<Rightarrow> (Threw e, evs')
           | (StillPolling, evs') \<Rightarrow> (StillPolling, evs'))
      | Text t \<Rightarrow> promote budget env rest parts evs
      | FileData mimeType fileUri \<Rightarrow> promote budget env rest parts evs)"

definition messageToParts :: "nat \<Rightarrow> env \<Rightarrow> message list \<Rightarrow> part list io" where
  "messageToParts budget env messages evs =
     (case message_loop budget env messages ([], 0) evs of
        (Returned (parts, totalBytes), evs1) \<Rightarrow>
          if totalBytes > 20 * 1024 * 1024
          then promote budget env [0..<length parts] parts evs1
          else (Returned parts, evs1)
      | (Threw e, evs1) \<Rightarrow> (Threw e, evs1)
      | (StillPolling, evs1) \<Rightarrow> (StillPolling, evs1))"

section \<open>Chat sessions\<close>

text \<open>
  \<^verbatim>\<open>Content\<close> of the wrapped client: a role and its parts. The generation parameters and
  the safety settings are passed through untouched and stay opaque.
\<close>

record content =
  role :: string
  content_parts :: "part list"

type_synonym generationConfig = string
type_synonym safetySetting = string

text \<open>
  A history is a JavaScript array, shared by reference: the array given in the options of
  \<^verbatim>\<open>createChat\<close> is the very array the chat pushes to. Arrays live in a store, by
  address; \<open>allocated\<close> is the next free address.
\<close>

type_synonym ref = nat


text \<open>
  \<^verbatim>\<open>AskOptions\<close>; \<open>None\<close> is an absent key. (A key present with the value
  \<^verbatim>\<open>undefined\<close> is not told apart from an absent one.)
\<close>

record askOptions =
  model :: "string option"
  history :: "ref option"
  generationConfig :: "generationConfig option"
  safetySettings :: "safetySetting list option"
  systemInstruction :: "content option"

text \<open>
  What \<^verbatim>\<open>Gemini.ask\<close> hands to the wrapped client (\<^verbatim>\<open>getGenerativeModel\<close>,
  \<^verbatim>\<open>startChat\<close>, \<^verbatim>\<open>sendMessage\<close>), and the client itself, which is not code of this
  repository: a function from the request to its result. What the client does with the
  history array it is handed is its own business and is not modelled; the properties below
  are about the operations of this module.
\<close>

record request =
  req_model :: "string option"
  req_apiVersion :: "string option"
  req_history :: "content list"
  req_generationConfig :: "generationConfig option"
  req_safetySettings :: "safetySetting list option"
  req_systemInstruction :: "content option"
  req_parts :: "part list"

record ('r, 's) gemini =
  sendMessage :: "request \<Rightarrow> 'r"
  sendMessageStream :: "request \<Rightarrow> 's"
  apiVersion :: "string option"














section \<open>Vocabulary of the properties\<close>

text \<open>
  The condition \<^verbatim>\<open>msg instanceof ArrayBuffer || msg instanceof Uint8Array || isFileUpload(msg)\<close>
  of the loop body, with the buffer and the path hint the body then takes from the element.
\<close>

fun is_binary :: "message \<Rightarrow> bool" where
  "is_binary (ArrayBuffer buffer) = True"
| "is_binary (Uint8Array buffer) = True"
| "is_binary (FileUpload buffer filePath) = isFileUpload (FileUpload buffer filePath)"
| "is_binary (Str msg) = False"
| "is_binary Other = False"

fun is_string :: "message \<Rightarrow> bool" where
  "is_string (Str msg) = True"
| "is_string (ArrayBuffer buffer) = False"
| "is_string (Uint8Array buffer) = False"
| "is_string (FileUpload buffer filePath) = False"
| "is_string Other = False"

definition dispatched :: "message \<Rightarrow> bool" where
  "dispatched msg = (is_string msg \<or> is_binary msg)"

fun buffer_of :: "message \<Rightarrow> bytes" where
  "buffer_of (ArrayBuffer buffer) = buffer"
| "buffer_of (Uint8Array buffer) = buffer"
| "buffer_of (FileUpload buffer filePath) = buffer"
| "buffer_of (Str msg) = []"
| "buffer_of Other = []"

fun filePath_of :: "message \<Rightarrow> string option" where
  "filePath_of (FileUpload buffer filePath) = Some filePath"
| "filePath_of (ArrayBuffer buffer) = None"
| "filePath_of (Uint8Array buffer) = None"
| "filePath_of (Str msg) = None"
| "filePath_of Other = None"

text \<open>The type \<^verbatim>\<open>messageToParts\<close> gets from \<^verbatim>\<open>getFileType(buffer, filePath)\<close>.\<close>

definition mimeType_of :: "env \<Rightarrow> message \<Rightarrow> string" where
  "mimeType_of env msg =
     (case fst (getFileType env (buffer_of msg) (filePath_of msg) False []) of
        Returned mimeType \<Rightarrow> mimeType
      | Threw e \<Rightarrow> []
      | StillPolling \<Rightarrow> [])"

text \<open>The bytes of all elements that take the binary branch, video or not.\<close>

definition total_bytes :: "message list \<Rightarrow> nat" where
  "total_bytes messages = sum_list (map (\<lambda>msg. length (buffer_of msg)) (filter is_binary messages))"

text \<open>The bytes of the elements emitted as inline data in the first loop.\<close>

definition inline_bytes :: "env \<Rightarrow> message list \<Rightarrow> nat" where
  "inline_bytes env messages =
     sum_list (map (\<lambda>msg. length (buffer_of msg))
       (filter (\<lambda>msg. is_binary msg \<and> \<not> startsWith_video (mimeType_of env msg)) messages))"

text \<open>The bytes of the elements uploaded at once as video in the first loop.\<close>

definition video_bytes :: "env \<Rightarrow> message list \<Rightarrow> nat" where
  "video_bytes env messages =
     sum_list (map (\<lambda>msg. length (buffer_of msg))
       (filter (\<lambda>msg. is_binary msg \<and> startsWith_video (mimeType_of env msg)) messages))"

text \<open>
  The part an element gives: a string its text part; a binary element an inline part with
  its type and its encoded bytes when it is neither video nor promoted, and a file-data part
  with its type otherwise.
\<close>

definition yields :: "env \<Rightarrow> bool \<Rightarrow> message \<Rightarrow> part \<Rightarrow> bool" where
  "yields env promoted msg p =
     (case msg of
        Str s \<Rightarrow> p = Text s
      | _ \<Rightarrow>
        (case p of
           Text t \<Rightarrow> False
         | InlineData mimeType data \<Rightarrow>
             mimeType = mimeType_of env msg \<and> data = toBase64 env (buffer_of msg)
             \<and> \<not> startsWith_video mimeType \<and> \<not> promoted
         | FileData mimeType fileUri \<Rightarrow>
             mimeType = mimeType_of env msg \<and> (startsWith_video mimeType \<or> promoted)))"




text \<open>A status reply that is neither an error nor the active state.\<close>

fun pending :: "status_reply \<Rightarrow> bool" where
  "pending (StatusJson None state) = (state \<noteq> ''ACTIVE'')"
| "pending (StatusJson (Some msg) state) = False"
| "pending (StatusRejected msg) = False"

text \<open>
  The events of \<open>n\<close> iterations of the loop that neither return nor throw, from a wait of
  \<open>waitTime\<close>: a query and a sleep each, the wait updated as the loop does.
\<close>

fun rounds :: "string \<Rightarrow> rat \<Rightarrow> nat \<Rightarrow> event list" where
  "rounds file_name waitTime 0 = []"
| "rounds file_name waitTime (Suc n) =
     StatusQuery file_name # Sleep waitTime
       # rounds file_name (min (waitTime * (3 / 2)) MAX_BACKOFF) n"

text \<open>The wait time after \<open>n\<close> updates \<^verbatim>\<open>waitTime = Math.min(waitTime * 1.5, MAX_BACKOFF)\<close>.\<close>

fun backoff :: "rat \<Rightarrow> nat \<Rightarrow> rat" where
  "backoff waitTime 0 = waitTime"
| "backoff waitTime (Suc n) = backoff (min (waitTime * (3 / 2)) MAX_BACKOFF) n"

fun is_upload :: "event \<Rightarrow> bool" where
  "is_upload (UploadRequest mimeType file) = True"
| "is_upload (StatusQuery file_name) = False"
| "is_upload (Sleep waitTime) = False"


section \<open>Sample libraries and services\<close>

text \<open>
  Stand-ins for the libraries, enough to run the model on examples: a sniffer that looks at
  the first byte, a path table, and a codec that maps a byte to a character.
\<close>

definition sample_sniff :: "bytes \<Rightarrow> string option" where
  "sample_sniff buffer =
     (case buffer of
        [] \<Rightarrow> None
      | b # rest \<Rightarrow>
          if b = 0x89 then Some ''image/png''
          else if b = 0x00 then Some ''video/quicktime''
          else if b = 0x50 then Some ''application/zip''
          else None)"

definition sample_getType :: "string \<Rightarrow> string option" where
  "sample_getType p =
     (if p = ''song.mp3'' then Some ''audio/mpeg''
      else if p = ''notes.md'' then Some ''text/markdown''
      else if p = ''a.zip'' then Some ''application/zip''
      else None)"

definition sample_encode :: "bytes \<Rightarrow> string" where
  "sample_encode buffer = map (\<lambda>b. char_of (unat b)) buffer"

definition sample_decode :: "string \<Rightarrow> bytes" where
  "sample_decode data = map (\<lambda>c. of_nat (of_char c)) data"

definition sample_file :: file_info where
  "sample_file = \<lparr> name = ''files/abc'', uri = ''https://host/files/abc'' \<rparr>"

definition events_since_upload :: "event list \<Rightarrow> nat" where
  "events_since_upload evs = length (takeWhile (\<lambda>e. \<not> is_upload e) (rev evs))"

text \<open>A service that accepts every upload and reports it active at the third query.\<close>

definition accepting :: "event list \<Rightarrow> upload_reply" where
  "accepting evs = UploadJson (Some sample_file)"

definition active_at_third :: "event list \<Rightarrow> status_reply" where
  "active_at_third evs =
     StatusJson None (if events_since_upload evs < 5 then ''PROCESSING'' else ''ACTIVE'')"

definition sample_env :: env where
  "sample_env =
     \<lparr> fileTypeFromBuffer = sample_sniff, mime_getType = sample_getType,
       toBase64 = sample_encode, fromBase64 = sample_decode,
       upload_reply = accepting, status_reply = active_at_third \<rparr>"










section \<open>Classification: strict mode, default and determinism\<close>

lemma plain_supported: "''text/plain'' \<in> set supportedFileFormats"
  by (simp add: supportedFileFormats_def)

lemma getFileType_nonstrict:
  "getFileType env (buffer_of msg) (filePath_of msg) False evs = (Returned (mimeType_of env msg), evs)"
  by (auto simp add: mimeType_of_def getFileType_def split: option.splits)

lemma mimeType_of_supported: "mimeType_of env msg \<in> set supportedFileFormats"
  by (auto simp add: mimeType_of_def getFileType_def accepted_def plain_supported
        split: option.splits if_splits)





section \<open>The polling loop\<close>

lemma backoff_closed:
  "waitTime \<le> 5000 \<Longrightarrow> backoff waitTime n = min (waitTime * (3 / 2) ^ n) 5000"
proof (induction n arbitrary: waitTime)
  case 0
  then show ?case by simp
next
  case (Suc n)
  have c: "(1::rat) \<le> (3 / 2) ^ n" by (rule one_le_power) simp
  have le: "min (waitTime * (3 / 2)) MAX_BACKOFF \<le> 5000" by (simp add: MAX_BACKOFF_def)
  show ?case
  proof (cases "waitTime * (3 / 2) \<le> 5000")
    case True
    then have "min (waitTime * (3 / 2)) MAX_BACKOFF = waitTime * (3 / 2)"
      by (simp add: MAX_BACKOFF_def)
    with Suc.IH [OF le] show ?thesis by (simp add: mult.assoc)
  next
    case False
    then have big: "5000 \<le> waitTime * (3 / 2)" by simp
    from False have cap: "min (waitTime * (3 / 2)) MAX_BACKOFF = 5000"
      by (simp add: MAX_BACKOFF_def)
    have one: "(5000::rat) \<le> 5000 * (3 / 2) ^ n" using c by simp
    have pos: "(0::rat) \<le> (3 / 2) ^ n" by simp
    have "5000 * (3 / 2) ^ n \<le> (waitTime * (3 / 2)) * (3 / 2) ^ n"
      by (rule mult_right_mono [OF big pos])
    with one have "5000 \<le> (waitTime * (3 / 2)) * (3 / 2) ^ n" by (rule order_trans)
    then have two: "5000 \<le> waitTime * (3 / 2) ^ Suc n" by (simp only: power_Suc mult.assoc)
    from Suc.IH [OF le] cap have "backoff waitTime (Suc n) = min (5000 * (3 / 2) ^ n) 5000"
      by simp
    also have "\<dots> = 5000" by (rule min_absorb2 [OF one])
    also have "\<dots> = min (waitTime * (3 / 2) ^ Suc n) 5000" by (rule min_absorb2 [OF two, symmetric])
    finally show ?thesis .
  qed
qed

lemma rounds_length: "length (rounds nm w n) = 2 * n"
  by (induction n arbitrary: w) simp_all

lemma rounds_query: "k < n \<Longrightarrow> rounds nm w n ! (2 * k) = StatusQuery nm"
proof (induction n arbitrary: w k)
  case 0 then show ?case by simp
next
  case (Suc n) then show ?case by (cases k) simp_all
qed

lemma rounds_sleep: "k < n \<Longrightarrow> rounds nm w n ! (2 * k + 1) = Sleep (backoff w k)"
proof (induction n arbitrary: w k)
  case 0 then show ?case by simp
next
  case (Suc n) then show ?case by (cases k) simp_all
qed

lemma poll_rounds:
  "\<forall>k<n. pending (status_reply env (evs @ rounds (name file) w k @ [StatusQuery (name file)]))
   \<Longrightarrow> poll (n + budget) env (Some file) w evs
       = poll budget env (Some file) (backoff w n) (evs @ rounds (name file) w n)"
proof (induction n arbitrary: w evs)
  case 0
  then show ?case by simp
next
  case (Suc n)
  let ?q = "StatusQuery (name file)"
  let ?w = "min (w * (3 / 2)) MAX_BACKOFF"
  from Suc.prems have first: "pending (status_reply env (evs @ [?q]))"
    by (metis append_Nil rounds.simps(1) zero_less_Suc)
  have later: "\<forall>k<n. pending (status_reply env ((evs @ [?q, Sleep w]) @ rounds (name file) ?w k @ [?q]))"
  proof (intro allI impI)
    fix k assume "k < n"
    then have "Suc k < Suc n" by simp
    with Suc.prems have "pending (status_reply env (evs @ rounds (name file) w (Suc k) @ [?q]))"
      by blast
    then show "pending (status_reply env ((evs @ [?q, Sleep w]) @ rounds (name file) ?w k @ [?q]))"
      by simp
  qed
  from first obtain state where reply: "status_reply env (evs @ [?q]) = StatusJson None state"
    and state: "state \<noteq> ''ACTIVE''"
    by (cases "status_reply env (evs @ [?q])" rule: pending.cases) auto
  have "poll (Suc n + budget) env (Some file) w evs = poll (n + budget) env (Some file) ?w (evs @ [?q, Sleep w])"
    using reply state by simp
  also have "\<dots> = poll budget env (Some file) (backoff ?w n) ((evs @ [?q, Sleep w]) @ rounds (name file) ?w n)"
    by (rule Suc.IH [OF later])
  finally show ?case by simp
qed

lemma poll_extends: "\<exists>tail. snd (poll budget env fileSendData w evs) = evs @ tail"
proof (induction budget arbitrary: w evs)
  case 0
  then show ?case by simp
next
  case (Suc budget)
  show ?case
  proof (cases fileSendData)
    case None
    then show ?thesis by simp
  next
    case (Some f)
    let ?evs1 = "evs @ [StatusQuery (name f)]"
    show ?thesis
    proof (cases "status_reply env ?evs1")
      case (StatusRejected msg)
      with Some show ?thesis by simp
    next
      case (StatusJson err state)
      show ?thesis
      proof (cases "err = None \<and> state \<noteq> ''ACTIVE''")
        case True
        from Suc.IH [of "min (w * (3 / 2)) MAX_BACKOFF" "?evs1 @ [Sleep w]"]
        obtain tail where "snd (poll budget env fileSendData (min (w * (3 / 2)) MAX_BACKOFF) (?evs1 @ [Sleep w])) = (?evs1 @ [Sleep w]) @ tail"
          by blast
        with Some StatusJson True show ?thesis by simp
      next
        case False
        with Some StatusJson show ?thesis by (cases err) auto
      qed
    qed
  qed
qed


lemma uploadFile_events:
  "snd (uploadFile budget env buffer mimeType evs) =
     (case upload_reply env (evs @ [UploadRequest mimeType buffer]) of
        UploadRejected msg \<Rightarrow> evs @ [UploadRequest mimeType buffer]
      | UploadJson fileSendData \<Rightarrow>
          snd (poll budget env fileSendData 250 (evs @ [UploadRequest mimeType buffer])))"
  by (simp add: uploadFile_def Let_def split: upload_reply.splits prod.splits outcome.splits)

lemma uploadFile_result:
  "fst (uploadFile budget env buffer mimeType evs) =
     (case upload_reply env (evs @ [UploadRequest mimeType buffer]) of
        UploadRejected msg \<Rightarrow> Threw (Error msg)
      | UploadJson fileSendData \<Rightarrow>
          (case fst (poll budget env fileSendData 250 (evs @ [UploadRequest mimeType buffer])) of
             Returned info \<Rightarrow> Returned (uri info)
           | Threw e \<Rightarrow> Threw e
           | StillPolling \<Rightarrow> StillPolling))"
  by (simp add: uploadFile_def Let_def split: upload_reply.splits prod.splits outcome.splits)

lemma uploadFile_returns:
  assumes reply: "upload_reply env (evs @ [UploadRequest mimeType buffer]) = UploadJson (Some info)"
    and pend: "\<forall>k<N. pending (status_reply env
        (evs @ UploadRequest mimeType buffer # rounds (name info) 250 k @ [StatusQuery (name info)]))"
    and active: "status_reply env
        (evs @ UploadRequest mimeType buffer # rounds (name info) 250 N @ [StatusQuery (name info)])
        = StatusJson None ''ACTIVE''"
    and N: "N < budget"
  shows "uploadFile budget env buffer mimeType evs
           = (Returned (uri info),
              evs @ UploadRequest mimeType buffer # rounds (name info) 250 N
                @ [StatusQuery (name info)])"
proof -
  let ?evs1 = "evs @ [UploadRequest mimeType buffer]"
  from pend have pend': "\<forall>k<N. pending (status_reply env
        (?evs1 @ rounds (name info) 250 k @ [StatusQuery (name info)]))"
    by simp
  from N obtain rest where "budget = Suc (N + rest)"
    using less_imp_Suc_add by blast
  then have budget: "budget = N + Suc rest" by simp
  have "poll budget env (Some info) 250 ?evs1
          = poll (Suc rest) env (Some info) (backoff 250 N) (?evs1 @ rounds (name info) 250 N)"
    unfolding budget by (rule poll_rounds [OF pend'])
  also have "\<dots> = (Returned info, (?evs1 @ rounds (name info) 250 N) @ [StatusQuery (name info)])"
    using active by simp
  finally show ?thesis using reply by (simp add: uploadFile_def)
qed

text \<open>
  C6. When the upload is accepted and the first \<open>N\<close> status queries of the loop each
  observe neither the active state nor an error, the loop (budget permitting) issues its
  \<open>N\<close>-th query and then sleeps \<open>min (250 * 1.5 ^ (N - 1)) 5000\<close> milliseconds.
\<close>

theorem backoff_law:
  assumes reply: "upload_reply env (evs @ [UploadRequest mimeType buffer]) = UploadJson (Some info)"
    and pend: "\<forall>k<N. pending (status_reply env
        (evs @ UploadRequest mimeType buffer # rounds (name info) 250 k @ [StatusQuery (name info)]))"
    and N: "0 < N" "N \<le> budget"
  shows "snd (uploadFile budget env buffer mimeType evs) ! (length evs + 2 * N - 1)
           = StatusQuery (name info)
         \<and> snd (uploadFile budget env buffer mimeType evs) ! (length evs + 2 * N)
           = Sleep (min (250 * (3 / 2) ^ (N - 1)) 5000)"
proof -
  let ?evs1 = "evs @ [UploadRequest mimeType buffer]"
  define r where "r = rounds (name info) 250 N"
  from pend have pend': "\<forall>k<N. pending (status_reply env
        (?evs1 @ rounds (name info) 250 k @ [StatusQuery (name info)]))"
    by simp
  from N obtain rest where budget: "budget = N + rest"
    using le_Suc_ex by blast
  have "poll budget env (Some info) 250 ?evs1
          = poll rest env (Some info) (backoff 250 N) (?evs1 @ r)"
    unfolding budget r_def by (rule poll_rounds [OF pend'])
  moreover obtain tail where
    "snd (poll rest env (Some info) (backoff 250 N) (?evs1 @ r)) = (?evs1 @ r) @ tail"
    using poll_extends by blast
  ultimately have events: "snd (uploadFile budget env buffer mimeType evs) = ?evs1 @ r @ tail"
    using reply by (simp add: uploadFile_events)
  from N obtain m where m: "N = Suc m" by (cases N) auto
  have q: "r ! (2 * m) = StatusQuery (name info)"
    unfolding r_def by (rule rounds_query) (simp add: m)
  have s: "r ! (2 * m + 1) = Sleep (backoff 250 m)"
    unfolding r_def by (rule rounds_sleep) (simp add: m)
  have len: "length r = 2 * m + 2" unfolding r_def by (simp add: rounds_length m)
  have i1: "(?evs1 @ r @ tail) ! (length evs + 2 * N - 1) = r ! (2 * m)"
    using len by (simp add: nth_append m)
  have i2: "(?evs1 @ r @ tail) ! (length evs + 2 * N) = r ! (2 * m + 1)"
    using len by (simp add: nth_append m)
  have "backoff 250 m = min (250 * (3 / 2) ^ m) 5000"
    by (rule backoff_closed) simp
  with events q s i1 i2 show ?thesis by (simp add: m)
qed

theorem backoff_law_witness:
  "snd (uploadFile 3 sample_env [0x00] ''video/mov'' []) ! 3 = StatusQuery ''files/abc''
   \<and> snd (uploadFile 3 sample_env [0x00] ''video/mov'' []) ! 4 = Sleep 375"
proof -
  have reply: "upload_reply sample_env ([] @ [UploadRequest ''video/mov'' [0x00]])
                 = UploadJson (Some sample_file)"
    by (simp add: sample_env_def accepting_def)
  have pend: "\<forall>k<2. pending (status_reply sample_env
      ([] @ UploadRequest ''video/mov'' [0x00] # rounds (name sample_file) 250 k
         @ [StatusQuery (name sample_file)]))"
  proof (intro allI impI)
    fix k :: nat assume "k < 2"
    then have "k = 0 \<or> k = Suc 0" by arith
    then show "pending (status_reply sample_env
      ([] @ UploadRequest ''video/mov'' [0x00] # rounds (name sample_file) 250 k
         @ [StatusQuery (name sample_file)]))"
      by (auto simp add: sample_env_def active_at_third_def events_since_upload_def)
  qed
  from backoff_law [OF reply pend, of 3] show ?thesis
    by (simp add: sample_file_def)
qed




section \<open>Part assembly: the two loops\<close>

lemma message_step_skipped:
  "\<not> dispatched msg \<Longrightarrow> message_step budget env msg st evs = (Returned st, evs)"
  by (cases msg) (simp_all add: dispatched_def)

lemma message_step_string:
  "message_step budget env (Str s) (ps, totalBytes) evs = (Returned (ps @ [Text s], totalBytes), evs)"
  by simp

lemma message_step_binary:
  assumes "is_binary msg"
  shows "message_step budget env msg (ps, totalBytes) evs =
     (if \<not> startsWith_video (mimeType_of env msg) then
        (Returned (ps @ [InlineData (mimeType_of env msg) (toBase64 env (buffer_of msg))],
                   totalBytes + length (buffer_of msg)), evs)
      else
        (case uploadFile budget env (buffer_of msg) (mimeType_of env msg) evs of
           (Returned fileURI, evs2) \<Rightarrow>
             (Returned (ps @ [FileData (mimeType_of env msg) fileURI],
                        totalBytes + length (buffer_of msg)), evs2)
         | (Threw e, evs2) \<Rightarrow> (Threw e, evs2)
         | (StillPolling, evs2) \<Rightarrow> (StillPolling, evs2)))"
proof -
  have "message_step budget env msg (ps, totalBytes) evs
          = binary_part budget env (buffer_of msg) (filePath_of msg) (ps, totalBytes) evs"
    using assms by (cases msg) simp_all
  then show ?thesis
    by (simp add: binary_part_def getFileType_nonstrict)
qed

lemma message_loop_append:
  "message_loop budget env (xs @ ys) st evs =
     (case message_loop budget env xs st evs of
        (Returned st', evs') \<Rightarrow> message_loop budget env ys st' evs'
      | (Threw e, evs') \<Rightarrow> (Threw e, evs')
      | (StillPolling, evs') \<Rightarrow> (StillPolling, evs'))"
  by (induction xs arbitrary: st evs) (auto split: prod.splits outcome.splits)

lemma message_loop_skip:
  "\<not> dispatched msg \<Longrightarrow>
     message_loop budget env (pre @ msg # post) st evs = message_loop budget env (pre @ post) st evs"
  by (simp add: message_loop_append message_step_skipped split: prod.splits outcome.splits)

lemma total_bytes_Cons:
  "total_bytes (msg # messages) = (if is_binary msg then length (buffer_of msg) else 0) + total_bytes messages"
  by (simp add: total_bytes_def)

lemma yields_Text: "yields env promoted (Str s) (Text s)"
  by (simp add: yields_def)

lemma yields_binary_inline:
  "is_binary msg \<Longrightarrow> \<not> startsWith_video (mimeType_of env msg) \<Longrightarrow>
     yields env False msg (InlineData (mimeType_of env msg) (toBase64 env (buffer_of msg)))"
  by (cases msg) (simp_all add: yields_def)

lemma yields_binary_file:
  "is_binary msg \<Longrightarrow> startsWith_video (mimeType_of env msg) \<or> promoted \<Longrightarrow>
     yields env promoted msg (FileData (mimeType_of env msg) fileURI)"
  by (cases msg) (simp_all add: yields_def)

lemma message_step_returned:
  assumes "dispatched msg"
    and "message_step budget env msg (ps, totalBytes) evs = (Returned st', evs1)"
  shows "\<exists>p. st' = (ps @ [p], totalBytes + (if is_binary msg then length (buffer_of msg) else 0))
           \<and> yields env False msg p"
proof (cases "is_binary msg")
  case False
  with assms(1) obtain s where "msg = Str s" by (cases msg) (simp_all add: dispatched_def)
  with assms(2) show ?thesis by (auto simp: yields_Text)
next
  case True
  show ?thesis
  proof (cases "startsWith_video (mimeType_of env msg)")
    case False
    with True assms(2) show ?thesis
      by (auto simp: message_step_binary yields_binary_inline)
  next
    case video: True
    with True assms(2) show ?thesis
      by (auto simp: message_step_binary yields_binary_file split: prod.splits outcome.splits)
  qed
qed

lemma message_loop_spec:
  "message_loop budget env messages (ps, totalBytes) evs = (Returned (ps', totalBytes'), evs')
   \<Longrightarrow> totalBytes' = totalBytes + total_bytes messages
       \<and> (\<exists>new. ps' = ps @ new \<and> list_all2 (yields env False) (filter dispatched messages) new)"
proof (induction messages arbitrary: ps totalBytes evs)
  case Nil
  then show ?case by (simp add: total_bytes_def)
next
  case (Cons msg messages)
  show ?case
  proof (cases "dispatched msg")
    case False
    then have "\<not> is_binary msg" by (simp add: dispatched_def)
    with Cons.prems False Cons.IH [of ps totalBytes evs] show ?thesis
      by (simp add: message_step_skipped total_bytes_Cons)
  next
    case True
    from Cons.prems obtain st1 evs1 where
      step: "message_step budget env msg (ps, totalBytes) evs = (Returned st1, evs1)"
      and rest: "message_loop budget env messages st1 evs1 = (Returned (ps', totalBytes'), evs')"
      by (auto split: prod.splits outcome.splits)
    from message_step_returned [OF True step] obtain p where
      st1: "st1 = (ps @ [p], totalBytes + (if is_binary msg then length (buffer_of msg) else 0))"
      and p: "yields env False msg p" by blast
    from Cons.IH [OF rest [unfolded st1]] obtain new where
      "totalBytes' = totalBytes + (if is_binary msg then length (buffer_of msg) else 0)
          + total_bytes messages"
      "ps' = (ps @ [p]) @ new"
      "list_all2 (yields env False) (filter dispatched messages) new" by blast
    with p True show ?thesis
      by (intro conjI exI [of _ "p # new"]) (simp_all add: total_bytes_Cons)
  qed
qed



lemma uploadFile_extends: "prefix evs (snd (uploadFile budget env buffer mimeType evs))"
proof (cases "upload_reply env (evs @ [UploadRequest mimeType buffer])")
  case (UploadRejected msg)
  then show ?thesis by (simp add: uploadFile_events)
next
  case (UploadJson fileSendData)
  obtain tail where
    "snd (poll budget env fileSendData 250 (evs @ [UploadRequest mimeType buffer]))
       = (evs @ [UploadRequest mimeType buffer]) @ tail"
    using poll_extends by blast
  with UploadJson show ?thesis by (simp add: uploadFile_events)
qed

lemma promote_spec:
  assumes "promote budget env idxs ps evs = (Returned ps', evs')"
    and "distinct idxs" and "\<forall>i\<in>set idxs. i < length ps"
  shows "length ps' = length ps \<and> prefix evs evs'
     \<and> (\<forall>i<length ps.
          if i \<in> set idxs then
            (case ps ! i of
               InlineData mimeType data \<Rightarrow>
                 (\<exists>fileURI e e'. prefix evs e \<and> prefix e' evs'
                    \<and> uploadFile budget env (fromBase64 env data) mimeType e = (Returned fileURI, e')
                    \<and> ps' ! i = FileData mimeType fileURI)
             | Text t \<Rightarrow> ps' ! i = ps ! i
             | FileData mimeType fileUri \<Rightarrow> ps' ! i = ps ! i)
          else ps' ! i = ps ! i)"
  using assms
proof (induction idxs arbitrary: ps evs)
  case Nil
  then show ?case by simp
next
  case (Cons idx rest)
  from Cons.prems have idx: "idx < length ps" "idx \<notin> set rest"
    and rest: "distinct rest" "\<forall>i\<in>set rest. i < length ps"
    by simp_all
  show ?case
  proof (cases "ps ! idx")
    case (InlineData mimeType data)
    with Cons.prems(1) obtain fileURI e1 where
      up: "uploadFile budget env (fromBase64 env data) mimeType evs = (Returned fileURI, e1)"
      and run: "promote budget env rest (ps[idx := FileData mimeType fileURI]) e1 = (Returned ps', evs')"
      by (auto split: prod.splits outcome.splits)
    let ?ps2 = "ps[idx := FileData mimeType fileURI]"
    from rest have rest2: "\<forall>i\<in>set rest. i < length ?ps2" by simp
    from Cons.IH [OF run rest(1) rest2]
    have len: "length ps' = length ps" and pre: "prefix e1 evs'"
      and each: "\<And>i. i < length ps \<Longrightarrow>
          (if i \<in> set rest then
            (case ?ps2 ! i of
               InlineData mimeType data \<Rightarrow>
                 (\<exists>fileURI e e'. prefix e1 e \<and> prefix e' evs'
                    \<and> uploadFile budget env (fromBase64 env data) mimeType e = (Returned fileURI, e')
                    \<and> ps' ! i = FileData mimeType fileURI)
             | Text t \<Rightarrow> ps' ! i = ?ps2 ! i
             | FileData mimeType fileUri \<Rightarrow> ps' ! i = ?ps2 ! i)
          else ps' ! i = ?ps2 ! i)"
      by simp_all
    from up have pre1: "prefix evs e1"
      using uploadFile_extends [of evs budget env "fromBase64 env data" mimeType] by simp
    have "\<forall>i<length ps.
          if i \<in> set (idx # rest) then
            (case ps ! i of
               InlineData mimeType data \<Rightarrow>
                 (\<exists>fileURI e e'. prefix evs e \<and> prefix e' evs'
                    \<and> uploadFile budget env (fromBase64 env data) mimeType e = (Returned fileURI, e')
                    \<and> ps' ! i = FileData mimeType fileURI)
             | Text t \<Rightarrow> ps' ! i = ps ! i
             | FileData mimeType fileUri \<Rightarrow> ps' ! i = ps ! i)
          else ps' ! i = ps ! i"
    proof (intro allI impI)
      fix i assume i: "i < length ps"
      show "if i \<in> set (idx # rest) then
            (case ps ! i of
               InlineData mimeType data \<Rightarrow>
                 (\<exists>fileURI e e'. prefix evs e \<and> prefix e' evs'
                    \<and> uploadFile budget env (fromBase64 env data) mimeType e = (Returned fileURI, e')
                    \<and> ps' ! i = FileData mimeType fileURI)
             | Text t \<Rightarrow> ps' ! i = ps ! i
             | FileData mimeType fileUri \<Rightarrow> ps' ! i = ps ! i)
          else ps' ! i = ps ! i"
      proof (cases "i = idx")
        case True
        with each [OF i] idx have "ps' ! i = FileData mimeType fileURI" by simp
        moreover have "prefix evs evs" by simp
        ultimately show ?thesis using True InlineData up pre by auto
      next
        case False
        then have same: "?ps2 ! i = ps ! i" by simp
        show ?thesis
        proof (cases "i \<in> set rest")
          case True
          with each [OF i] same pre1 show ?thesis
            by (auto split: part.splits intro: prefix_order.trans)
        next
          case notin: False
          with each [OF i] same False show ?thesis by simp
        qed
      qed
    qed
    with len pre pre1 show ?thesis by (auto intro: prefix_order.trans)
  next
    case (Text t)
    with Cons.prems(1) have run: "promote budget env rest ps evs = (Returned ps', evs')" by simp
    from Cons.IH [OF run rest] idx Text show ?thesis by auto
  next
    case (FileData mimeType fileUri)
    with Cons.prems(1) have run: "promote budget env rest ps evs = (Returned ps', evs')" by simp
    from Cons.IH [OF run rest] idx FileData show ?thesis by auto
  qed
qed

lemma messageToParts_skip:
  "\<not> dispatched msg \<Longrightarrow>
     messageToParts budget env (pre @ msg # post) evs = messageToParts budget env (pre @ post) evs"
  by (simp add: messageToParts_def message_loop_skip)

lemma messageToParts_spec:
  assumes "messageToParts budget env messages evs = (Returned ps, evs')"
  shows "list_all2 (yields env (20 * 1024 * 1024 < total_bytes messages))
           (filter dispatched messages) ps"
proof -
  from assms obtain inlined totalBytes evs1 where
    loop: "message_loop budget env messages ([], 0) evs = (Returned (inlined, totalBytes), evs1)"
    and post: "(if 20 * 1024 * 1024 < totalBytes
                then promote budget env [0..<length inlined] inlined evs1
                else (Returned inlined, evs1)) = (Returned ps, evs')"
    by (auto simp: messageToParts_def split: prod.splits outcome.splits)
  from message_loop_spec [OF loop] have total: "totalBytes = total_bytes messages"
    and first: "list_all2 (yields env False) (filter dispatched messages) inlined"
    by auto
  show ?thesis
  proof (cases "20 * 1024 * 1024 < totalBytes")
    case False
    with post total first show ?thesis by simp
  next
    case True
    with post have run: "promote budget env [0..<length inlined] inlined evs1 = (Returned ps, evs')"
      by simp
    from promote_spec [OF run] have len: "length ps = length inlined"
      and each: "\<And>i. i < length inlined \<Longrightarrow>
            (case inlined ! i of
               InlineData mimeType data \<Rightarrow>
                 (\<exists>fileURI e e'. prefix evs1 e \<and> prefix e' evs'
                    \<and> uploadFile budget env (fromBase64 env data) mimeType e = (Returned fileURI, e')
                    \<and> ps ! i = FileData mimeType fileURI)
             | Text t \<Rightarrow> ps ! i = inlined ! i
             | FileData mimeType fileUri \<Rightarrow> ps ! i = inlined ! i)"
      by simp_all
    have "list_all2 (yields env True) (filter dispatched messages) ps"
    proof (rule list_all2_all_nthI)
      from first len show "length (filter dispatched messages) = length ps"
        by (simp add: list_all2_lengthD)
    next
      fix i assume "i < length (filter dispatched messages)"
      with first have i: "i < length inlined"
        and y: "yields env False (filter dispatched messages ! i) (inlined ! i)"
        by (simp_all add: list_all2_lengthD list_all2_nthD)
      from each [OF i] y show "yields env True (filter dispatched messages ! i) (ps ! i)"
        by (cases "inlined ! i"; cases "filter dispatched messages ! i")
          (auto simp: yields_def)
    qed
    with True total show ?thesis by simp
  qed
qed

text \<open>
  C10. An element that is neither a string nor passes the binary test gives no part, no
  error and no event: the call behaves as if the element were not in the list. An object
  whose \<^verbatim>\<open>filePath\<close> is the empty string fails \<^verbatim>\<open>isFileUpload\<close> and is such an
  element, as is any value of another kind.
\<close>

theorem unrecognised_elements_skipped:
  "(\<not> dispatched msg \<longrightarrow>
      messageToParts budget env (pre @ msg # post) evs = messageToParts budget env (pre @ post) evs)
   \<and> \<not> isFileUpload (FileUpload buffer [])
   \<and> \<not> dispatched (FileUpload buffer [])
   \<and> \<not> dispatched Other"
  by (simp add: messageToParts_skip dispatched_def)

theorem unrecognised_elements_skipped_witness:
  "messageToParts (Suc 0) sample_env [Str ''hi'', FileUpload [0x89, 0x50] [], Other] []
     = (Returned [Text ''hi''], [])"
proof -
  have 1: "\<not> dispatched (FileUpload [0x89, 0x50] [])" by (simp add: dispatched_def)
  have 2: "\<not> dispatched Other" by (simp add: dispatched_def)
  from unrecognised_elements_skipped [of "FileUpload [0x89, 0x50] []" "Suc 0" sample_env "[Str ''hi'']" "[Other]" "[]"] 1
  have "messageToParts (Suc 0) sample_env [Str ''hi'', FileUpload [0x89, 0x50] [], Other] []
          = messageToParts (Suc 0) sample_env [Str ''hi'', Other] []" by simp
  also from unrecognised_elements_skipped [of Other "Suc 0" sample_env "[Str ''hi'']" "[]" "[]"] 2
  have "\<dots> = messageToParts (Suc 0) sample_env [Str ''hi''] []" by simp
  also have "\<dots> = (Returned [Text ''hi''], [])" by (simp add: messageToParts_def)
  finally show ?thesis .
qed

section \<open>The budget of the polling loop\<close>

text \<open>
  A call that finishes within a budget, by returning or by throwing, does exactly the same
  with any larger budget: the budget only cuts off runs that are still polling.
\<close>

lemma poll_budget:
  "fst (poll budget env fileSendData w evs) \<noteq> StillPolling \<Longrightarrow>
     poll (budget + extra) env fileSendData w evs = poll budget env fileSendData w evs"
proof (induction budget arbitrary: w evs)
  case 0
  then show ?case by simp
next
  case (Suc budget)
  show ?case
  proof (cases fileSendData)
    case None
    then show ?thesis by simp
  next
    case (Some f)
    show ?thesis
    proof (cases "status_reply env (evs @ [StatusQuery (name f)])")
      case (StatusRejected msg)
      with Some show ?thesis by simp
    next
      case (StatusJson err state)
      show ?thesis
      proof (cases "err = None \<and> state \<noteq> ''ACTIVE''")
        case True
        with Suc.prems Some StatusJson
        have "fst (poll budget env fileSendData (min (w * (3 / 2)) MAX_BACKOFF)
                 ((evs @ [StatusQuery (name f)]) @ [Sleep w])) \<noteq> StillPolling"
          by simp
        from Suc.IH [OF this] True Some StatusJson show ?thesis by simp
      next
        case False
        with Some StatusJson show ?thesis by (cases err) auto
      qed
    qed
  qed
qed

lemma uploadFile_budget:
  assumes "fst (uploadFile budget env buffer mimeType evs) \<noteq> StillPolling"
  shows "uploadFile (budget + extra) env buffer mimeType evs = uploadFile budget env buffer mimeType evs"
proof (cases "upload_reply env (evs @ [UploadRequest mimeType buffer])")
  case (UploadRejected msg)
  then show ?thesis by (simp add: uploadFile_def)
next
  case (UploadJson fileSendData)
  with assms have "fst (poll budget env fileSendData 250 (evs @ [UploadRequest mimeType buffer]))
      \<noteq> StillPolling"
    by (auto simp: uploadFile_result split: outcome.splits)
  from poll_budget [OF this] UploadJson show ?thesis by (simp add: uploadFile_def)
qed

lemma message_step_budget:
  assumes "fst (message_step budget env msg st evs) \<noteq> StillPolling"
  shows "message_step (budget + extra) env msg st evs = message_step budget env msg st evs"
proof (cases "is_binary msg \<and> startsWith_video (mimeType_of env msg)")
  case True
  obtain ps totalBytes where st: "st = (ps, totalBytes)" by (cases st)
  from True assms have "fst (uploadFile budget env (buffer_of msg) (mimeType_of env msg) evs)
      \<noteq> StillPolling"
    by (auto simp: st message_step_binary split: prod.splits outcome.splits)
  from uploadFile_budget [OF this] True show ?thesis
    by (simp add: st message_step_binary)
next
  case False
  obtain ps totalBytes where st: "st = (ps, totalBytes)" by (cases st)
  show ?thesis
  proof (cases "is_binary msg")
    case True
    with False show ?thesis by (simp add: st message_step_binary)
  next
    case nb: False
    then show ?thesis by (cases msg) simp_all
  qed
qed

lemma message_loop_budget:
  "fst (message_loop budget env messages st evs) \<noteq> StillPolling \<Longrightarrow>
     message_loop (budget + extra) env messages st evs = message_loop budget env messages st evs"
proof (induction messages arbitrary: st evs)
  case Nil
  then show ?case by simp
next
  case (Cons msg messages)
  from Cons.prems have step: "fst (message_step budget env msg st evs) \<noteq> StillPolling"
    by (auto split: prod.splits outcome.splits)
  note same = message_step_budget [OF step, of extra]
  show ?case
  proof (cases "message_step budget env msg st evs")
    case (Pair r evs1)
    show ?thesis
    proof (cases r)
      case (Returned st1)
      with Pair Cons.prems have "fst (message_loop budget env messages st1 evs1) \<noteq> StillPolling"
        by simp
      from Cons.IH [OF this] Pair Returned same show ?thesis by simp
    next
      case (Threw e)
      with Pair same show ?thesis by simp
    next
      case StillPolling
      with Pair step show ?thesis by simp
    qed
  qed
qed

lemma promote_budget:
  "fst (promote budget env idxs ps evs) \<noteq> StillPolling \<Longrightarrow>
     promote (budget + extra) env idxs ps evs = promote budget env idxs ps evs"
proof (induction idxs arbitrary: ps evs)
  case Nil
  then show ?case by simp
next
  case (Cons idx rest)
  show ?case
  proof (cases "ps ! idx")
    case (Text t)
    with Cons show ?thesis by simp
  next
    case (FileData mimeType fileUri)
    with Cons show ?thesis by simp
  next
    case (InlineData mimeType data)
    with Cons.prems have up: "fst (uploadFile budget env (fromBase64 env data) mimeType evs)
        \<noteq> StillPolling"
      by (auto split: prod.splits outcome.splits)
    note same = uploadFile_budget [OF up, of extra]
    show ?thesis
    proof (cases "uploadFile budget env (fromBase64 env data) mimeType evs")
      case (Pair r evs1)
      show ?thesis
      proof (cases r)
        case (Returned fileURI)
        with Pair InlineData Cons.prems
        have "fst (promote budget env rest (ps[idx := FileData mimeType fileURI]) evs1)
            \<noteq> StillPolling"
          by simp
        from Cons.IH [OF this] Pair Returned InlineData same show ?thesis by simp
      next
        case (Threw e)
        with Pair InlineData same show ?thesis by simp
      next
        case StillPolling
        with Pair up show ?thesis by simp
      qed
    qed
  qed
qed

lemma messageToParts_budget:
  assumes "fst (messageToParts budget env messages evs) \<noteq> StillPolling"
  shows "messageToParts (budget + extra) env messages evs = messageToParts budget env messages evs"
proof -
  from assms have loop: "fst (message_loop budget env messages ([], 0) evs) \<noteq> StillPolling"
    by (auto simp: messageToParts_def split: prod.splits outcome.splits)
  note same = message_loop_budget [OF loop, of extra]
  show ?thesis
  proof (cases "message_loop budget env messages ([], 0) evs")
    case (Pair r evs1)
    show ?thesis
    proof (cases r)
      case (Returned st)
      obtain ps totalBytes where st: "st = (ps, totalBytes)" by (cases st)
      show ?thesis
      proof (cases "20 * 1024 * 1024 < totalBytes")
        case True
        with assms Pair Returned st
        have "fst (promote budget env [0..<length ps] ps evs1) \<noteq> StillPolling"
          by (simp add: messageToParts_def)
        from promote_budget [OF this] True Pair Returned st same show ?thesis
          by (simp add: messageToParts_def)
      next
        case False
        with Pair Returned st same show ?thesis by (simp add: messageToParts_def)
      qed
    next
      case (Threw e)
      with Pair same show ?thesis by (simp add: messageToParts_def)
    next
      case StillPolling
      with Pair loop show ?thesis by simp
    qed
  qed
qed

section \<open>Part assembly: order, kinds, running total and threshold\<close>

lemma sample_env_sel:
  "fileTypeFromBuffer sample_env = sample_sniff"
  "mime_getType sample_env = sample_getType"
  "toBase64 sample_env = sample_encode"
  "fromBase64 sample_env = sample_decode"
  "upload_reply sample_env = accepting"
  "status_reply sample_env = active_at_third"
  by (simp_all add: sample_env_def)

lemmas classify_sample =
  binary_part_def getFileType_def accepted_def mapped_def formatMap_def supportedFileFormats_def
  startsWith_video_def sample_env_sel sample_sniff_def sample_getType_def

lemma sample_classes:
  "mimeType_of sample_env (Uint8Array (0x89 # rest)) = ''image/png''"
  "mimeType_of sample_env (Uint8Array (0x00 # rest)) = ''video/mov''"
  "mimeType_of sample_env (ArrayBuffer (0x00 # rest)) = ''video/mov''"
  "mimeType_of sample_env (FileUpload [0x03] ''song.mp3'') = ''audio/mp3''"
  by (simp_all add: mimeType_of_def getFileType_def accepted_def mapped_def formatMap_def
        supportedFileFormats_def sample_env_def sample_sniff_def sample_getType_def)

lemma sample_upload:
  "uploadFile (Suc (Suc (Suc 0))) sample_env buffer mimeType evs
     = (Returned ''https://host/files/abc'',
        evs @ [UploadRequest mimeType buffer, StatusQuery ''files/abc'', Sleep 250,
         StatusQuery ''files/abc'', Sleep 375, StatusQuery ''files/abc''])"
  by (simp add: uploadFile_def sample_env_def accepting_def active_at_third_def
        events_since_upload_def sample_file_def MAX_BACKOFF_def)

lemma total_bytes_split: "total_bytes messages = inline_bytes env messages + video_bytes env messages"
  by (induction messages) (simp_all add: total_bytes_def inline_bytes_def video_bytes_def)




text \<open>
  C2, as the code has it. The running total of the first loop grows by the size of every
  element that passes the binary test, whether the element is emitted inline or uploaded
  at once as video: it is the inline bytes plus the video bytes.
\<close>

theorem running_total_counts_every_binary:
  "(message_loop budget env messages (ps, totalBytes) evs = (Returned (ps', totalBytes'), evs')
      \<longrightarrow> totalBytes' = totalBytes + total_bytes messages)
   \<and> total_bytes messages = inline_bytes env messages + video_bytes env messages"
  using message_loop_spec [of budget env messages ps totalBytes evs ps' totalBytes' evs']
    total_bytes_split [of messages env]
  by blast

theorem running_total_counts_every_binary_witness:
  "message_loop (Suc (Suc (Suc 0))) sample_env
       [Uint8Array [0x89], Str ''and'', Uint8Array [0x00, 0x01, 0x02]] ([], 0) []
     = (Returned ([InlineData ''image/png'' (sample_encode [0x89]), Text ''and'',
                   FileData ''video/mov'' ''https://host/files/abc''], 4),
        [UploadRequest ''video/mov'' [0x00, 0x01, 0x02], StatusQuery ''files/abc'', Sleep 250,
         StatusQuery ''files/abc'', Sleep 375, StatusQuery ''files/abc''])
   \<and> total_bytes [Uint8Array [0x89], Str ''and'', Uint8Array [0x00, 0x01, 0x02]] = 4
   \<and> inline_bytes sample_env [Uint8Array [0x89], Str ''and'', Uint8Array [0x00, 0x01, 0x02]] = 1
   \<and> video_bytes sample_env [Uint8Array [0x89], Str ''and'', Uint8Array [0x00, 0x01, 0x02]] = 3"
proof -
  let ?messages = "[Uint8Array [0x89], Str ''and'', Uint8Array [0x00, 0x01, 0x02]]"
  let ?ps = "[InlineData ''image/png'' (sample_encode [0x89]), Text ''and'',
              FileData ''video/mov'' ''https://host/files/abc'']"
  have "\<exists>n evs'. message_loop (Suc (Suc (Suc 0))) sample_env ?messages ([], 0) []
           = (Returned (?ps, n), evs')
         \<and> evs' = [UploadRequest ''video/mov'' [0x00, 0x01, 0x02], StatusQuery ''files/abc'',
              Sleep 250, StatusQuery ''files/abc'', Sleep 375, StatusQuery ''files/abc'']"
    by (simp add: classify_sample sample_upload)
  then obtain n evs' where
    run: "message_loop (Suc (Suc (Suc 0))) sample_env ?messages ([], 0) [] = (Returned (?ps, n), evs')"
    and evs': "evs' = [UploadRequest ''video/mov'' [0x00, 0x01, 0x02], StatusQuery ''files/abc'',
              Sleep 250, StatusQuery ''files/abc'', Sleep 375, StatusQuery ''files/abc'']"
    by blast
  from running_total_counts_every_binary
    [of "Suc (Suc (Suc 0))" sample_env ?messages "[]" 0 "[]" ?ps n evs'] run
  have n: "n = 0 + total_bytes ?messages"
    and split: "total_bytes ?messages
       = inline_bytes sample_env ?messages + video_bytes sample_env ?messages"
    by blast+
  have i: "inline_bytes sample_env ?messages = 1"
    by (simp add: inline_bytes_def sample_classes startsWith_video_def)
  have v: "video_bytes sample_env ?messages = 3"
    by (simp add: video_bytes_def sample_classes startsWith_video_def)
  from run evs' n split i v show ?thesis by simp
qed

text \<open>
  The claim C2 as stated fails: a three-byte video element is uploaded as a file-data part
  and the running total is 3, while the bytes emitted inline are 0. The difference shows in
  the result: after a video of 20 MiB and one byte, a one-byte image is promoted to a
  file-data part, though the bytes emitted inline are 1.
\<close>

theorem inline_only_total_counterexample:
  "fst (message_loop (Suc (Suc (Suc 0))) sample_env [Uint8Array [0x00, 0x01, 0x02]] ([], 0) [])
     = Returned ([FileData ''video/mov'' ''https://host/files/abc''], 3)
   \<and> inline_bytes sample_env [Uint8Array [0x00, 0x01, 0x02]] = 0
   \<and> inline_bytes sample_env [Uint8Array (0x00 # replicate 20971520 0), Uint8Array [0x89]] = 1
   \<and> fst (messageToParts (Suc (Suc (Suc 0))) sample_env
            [Uint8Array (0x00 # replicate 20971520 0), Uint8Array [0x89]] [])
       = Returned [FileData ''video/mov'' ''https://host/files/abc'',
                   FileData ''image/png'' ''https://host/files/abc'']"
  by (simp add: messageToParts_def classify_sample sample_upload inline_bytes_def sample_classes)



lemma yields_video:
  "yields env promoted msg p \<Longrightarrow> is_binary msg \<Longrightarrow> startsWith_video (mimeType_of env msg)
   \<Longrightarrow> \<exists>fileURI. p = FileData (mimeType_of env msg) fileURI"
  by (cases msg; cases p) (auto simp: yields_def)

text \<open>
  C5. A buffer sniffed as \<open>video/quicktime\<close> is classified as \<open>video/mov\<close>,
  whatever the path hint and the strict flag. A binary element whose classified type starts
  with \<open>video\<close> goes straight to \<^verbatim>\<open>uploadFile\<close>, with its own bytes and type,
  whatever its size and whatever the parts and the running total so far; when the upload
  returns, the element's part is the file-data part of that type and URI, and it is a
  file-data part of that type in the result of the whole call.
\<close>

theorem video_routed_to_upload:
  "(fileTypeFromBuffer env buffer = Some ''video/quicktime'' \<longrightarrow>
      getFileType env buffer filePath strict evs = (Returned ''video/mov'', evs))
   \<and> (fileTypeFromBuffer env (buffer_of msg) = Some ''video/quicktime'' \<longrightarrow>
        mimeType_of env msg = ''video/mov'' \<and> startsWith_video (mimeType_of env msg))
   \<and> (is_binary msg \<and> startsWith_video (mimeType_of env msg) \<longrightarrow>
        message_step budget env msg (ps, totalBytes) evs =
          (case uploadFile budget env (buffer_of msg) (mimeType_of env msg) evs of
             (Returned fileURI, evs2) \<Rightarrow>
               (Returned (ps @ [FileData (mimeType_of env msg) fileURI],
                          totalBytes + length (buffer_of msg)), evs2)
           | (Threw e, evs2) \<Rightarrow> (Threw e, evs2)
           | (StillPolling, evs2) \<Rightarrow> (StillPolling, evs2)))
   \<and> (messageToParts budget env messages evs = (Returned out, evs') \<longrightarrow>
        list_all2 (\<lambda>msg p. is_binary msg \<and> startsWith_video (mimeType_of env msg)
                     \<longrightarrow> (\<exists>fileURI. p = FileData (mimeType_of env msg) fileURI))
          (filter dispatched messages) out)"
proof (intro conjI impI)
  assume "fileTypeFromBuffer env buffer = Some ''video/quicktime''"
  then show "getFileType env buffer filePath strict evs = (Returned ''video/mov'', evs)"
    by (simp add: getFileType_def accepted_def mapped_def formatMap_def supportedFileFormats_def)
next
  assume q: "fileTypeFromBuffer env (buffer_of msg) = Some ''video/quicktime''"
  then show "mimeType_of env msg = ''video/mov''"
    by (simp add: mimeType_of_def getFileType_def accepted_def mapped_def formatMap_def
          supportedFileFormats_def)
  then show "startsWith_video (mimeType_of env msg)" by (simp add: startsWith_video_def)
next
  assume "is_binary msg \<and> startsWith_video (mimeType_of env msg)"
  then show "message_step budget env msg (ps, totalBytes) evs =
          (case uploadFile budget env (buffer_of msg) (mimeType_of env msg) evs of
             (Returned fileURI, evs2) \<Rightarrow>
               (Returned (ps @ [FileData (mimeType_of env msg) fileURI],
                          totalBytes + length (buffer_of msg)), evs2)
           | (Threw e, evs2) \<Rightarrow> (Threw e, evs2)
           | (StillPolling, evs2) \<Rightarrow> (StillPolling, evs2))"
    by (simp add: message_step_binary)
next
  assume "messageToParts budget env messages evs = (Returned out, evs')"
  from messageToParts_spec [OF this]
  show "list_all2 (\<lambda>msg p. is_binary msg \<and> startsWith_video (mimeType_of env msg)
                     \<longrightarrow> (\<exists>fileURI. p = FileData (mimeType_of env msg) fileURI))
          (filter dispatched messages) out"
    by (rule list_all2_mono) (blast dest: yields_video)
qed

theorem video_routed_to_upload_witness:
  "getFileType sample_env [0x00, 0x00] None True [] = (Returned ''video/mov'', [])
   \<and> mimeType_of sample_env (ArrayBuffer [0x00, 0x00]) = ''video/mov''
   \<and> message_step (Suc (Suc (Suc 0))) sample_env (ArrayBuffer [0x00, 0x00]) ([Text ''x''], 7) []
       = (Returned ([Text ''x'', FileData ''video/mov'' ''https://host/files/abc''], 9),
          [UploadRequest ''video/mov'' [0x00, 0x00], StatusQuery ''files/abc'', Sleep 250,
           StatusQuery ''files/abc'', Sleep 375, StatusQuery ''files/abc''])
   \<and> messageToParts (Suc (Suc (Suc 0))) sample_env [ArrayBuffer [0x00, 0x00]] []
       = (Returned [FileData ''video/mov'' ''https://host/files/abc''],
          [UploadRequest ''video/mov'' [0x00, 0x00], StatusQuery ''files/abc'', Sleep 250,
           StatusQuery ''files/abc'', Sleep 375, StatusQuery ''files/abc''])
   \<and> list_all2 (\<lambda>msg p. is_binary msg \<and> startsWith_video (mimeType_of sample_env msg)
                   \<longrightarrow> (\<exists>fileURI. p = FileData (mimeType_of sample_env msg) fileURI))
        (filter dispatched [ArrayBuffer [0x00, 0x00]])
        [FileData ''video/mov'' ''https://host/files/abc'']"
proof -
  have sniffed: "fileTypeFromBuffer sample_env [0x00, 0x00] = Some ''video/quicktime''"
    by (simp add: sample_env_sel sample_sniff_def)
  have sniffed': "fileTypeFromBuffer sample_env (buffer_of (ArrayBuffer [0x00, 0x00]))
      = Some ''video/quicktime''"
    by (simp add: sample_env_sel sample_sniff_def)
  have video: "is_binary (ArrayBuffer [0x00, 0x00])
      \<and> startsWith_video (mimeType_of sample_env (ArrayBuffer [0x00, 0x00]))"
    by (simp add: sample_classes startsWith_video_def)
  have run: "messageToParts (Suc (Suc (Suc 0))) sample_env [ArrayBuffer [0x00, 0x00]] []
       = (Returned [FileData ''video/mov'' ''https://host/files/abc''],
          [UploadRequest ''video/mov'' [0x00, 0x00], StatusQuery ''files/abc'', Sleep 250,
           StatusQuery ''files/abc'', Sleep 375, StatusQuery ''files/abc''])"
    by (simp add: messageToParts_def classify_sample sample_upload)
  note law = video_routed_to_upload
    [where env = sample_env and buffer = "[0x00, 0x00]" and filePath = None and strict = True
       and evs = "[]" and msg = "ArrayBuffer [0x00, 0x00]" and budget = "Suc (Suc (Suc 0))"
       and ps = "[Text ''x'']" and totalBytes = 7 and messages = "[ArrayBuffer [0x00, 0x00]]"
       and out = "[FileData ''video/mov'' ''https://host/files/abc'']"]
  from law sniffed
  have 1: "getFileType sample_env [0x00, 0x00] None True [] = (Returned ''video/mov'', [])"
    by blast
  from law sniffed'
  have 2: "mimeType_of sample_env (ArrayBuffer [0x00, 0x00]) = ''video/mov''"
    by blast
  from law video
  have "message_step (Suc (Suc (Suc 0))) sample_env (ArrayBuffer [0x00, 0x00]) ([Text ''x''], 7) []
     = (case uploadFile (Suc (Suc (Suc 0))) sample_env (buffer_of (ArrayBuffer [0x00, 0x00]))
               (mimeType_of sample_env (ArrayBuffer [0x00, 0x00])) [] of
          (Returned fileURI, evs2) \<Rightarrow>
            (Returned ([Text ''x''] @ [FileData (mimeType_of sample_env (ArrayBuffer [0x00, 0x00]))
                                       fileURI],
                       7 + length (buffer_of (ArrayBuffer [0x00, 0x00]))), evs2)
        | (Threw e, evs2) \<Rightarrow> (Threw e, evs2)
        | (StillPolling, evs2) \<Rightarrow> (StillPolling, evs2))"
    by blast
  then have 3: "message_step (Suc (Suc (Suc 0))) sample_env (ArrayBuffer [0x00, 0x00])
        ([Text ''x''], 7) []
       = (Returned ([Text ''x'', FileData ''video/mov'' ''https://host/files/abc''], 9),
          [UploadRequest ''video/mov'' [0x00, 0x00], StatusQuery ''files/abc'', Sleep 250,
           StatusQuery ''files/abc'', Sleep 375, StatusQuery ''files/abc''])"
    by (simp add: 2 sample_upload)
  from law run
  have 4: "list_all2 (\<lambda>msg p. is_binary msg \<and> startsWith_video (mimeType_of sample_env msg)
                   \<longrightarrow> (\<exists>fileURI. p = FileData (mimeType_of sample_env msg) fileURI))
        (filter dispatched [ArrayBuffer [0x00, 0x00]])
        [FileData ''video/mov'' ''https://host/files/abc'']"
    by blast
  from 1 2 3 run 4 show ?thesis by blast
qed

section \<open>Chat history\<close>










end
